theory Spec2Isabelle
  imports Main "HOL-Library.Word"
begin

section \<open>Entry model (include/vs-logger/logger.hpp)\<close>

text \<open>
  \<^verbatim>\<open>uint64_t\<close> and \<^verbatim>\<open>size_t\<close> are 64-bit words: \<open>+\<close> wraps around.
\<close>

type_synonym u64 = "64 word"
type_synonym size_t = "64 word"

datatype type_t = OK | INFO | WARNING | ERROR | PANIC

datatype severity_t = NONE | LOW | MID | HIGH

text \<open>
  \<^verbatim>\<open>struct log_entry_t\<close>. The field \<^verbatim>\<open>length\<close> is named \<open>length_e\<close> here (the list
  function has the name already).
\<close>

record log_entry_t =
  type :: type_t
  sev :: severity_t
  timestamp :: u64
  activity_uuid :: u64
  seq_id :: u64
  parent_uuid :: u64
  offset :: size_t
  length_e :: size_t

section \<open>Rendering (lib/logger.cpp, unnamed/part_001)\<close>

text \<open>The two \<^verbatim>\<open>to_string\<close> overloads; every enumerator has its case.\<close>

fun to_string_type :: "type_t \<Rightarrow> string" where
  "to_string_type OK = ''OK''"
| "to_string_type INFO = ''INFO''"
| "to_string_type WARNING = ''WARNING''"
| "to_string_type ERROR = ''ERROR''"
| "to_string_type PANIC = ''PANIC''"

fun to_string_sev :: "severity_t \<Rightarrow> string" where
  "to_string_sev NONE = ''NONE''"
| "to_string_sev LOW = ''LOW''"
| "to_string_sev MID = ''MID''"
| "to_string_sev HIGH = ''HIGH''"

text \<open>
  How \<^verbatim>\<open>operator<<\<close> and \<^verbatim>\<open>std::format("{}", ...)\<close> print an unsigned integer: its
  decimal digits, most significant first, no leading zero. \<open>digit_char\<close> is only
  applied to numbers below ten.
\<close>

definition digit_char :: "nat \<Rightarrow> char" where
  "digit_char d = ''0123456789'' ! d"

function dec :: "nat \<Rightarrow> string" where
  "dec n = (if n < 10 then [digit_char n]
            else dec (n div 10) @ [digit_char (n mod 10)])"
  by pat_completeness auto
termination
  by (relation "measure id") auto

declare dec.simps [simp del]

definition show_u64 :: "u64 \<Rightarrow> string" where
  "show_u64 w = dec (unat w)"

text \<open>
  \<^verbatim>\<open>escape_json\<close> of unnamed/part_001: the \<^verbatim>\<open>switch\<close> on one character, and the loop
  that appends to \<^verbatim>\<open>result\<close>.
\<close>

definition escape_json_char :: "char \<Rightarrow> string" where
  "escape_json_char c =
     (if c = CHR 0x22 then [CHR 0x5C, CHR 0x22]
      else if c = CHR 0x5C then [CHR 0x5C, CHR 0x5C]
      else if c = CHR 0x08 then [CHR 0x5C, CHR ''b'']
      else if c = CHR 0x0C then [CHR 0x5C, CHR ''f'']
      else if c = CHR 0x0A then [CHR 0x5C, CHR ''n'']
      else if c = CHR 0x0D then [CHR 0x5C, CHR ''r'']
      else if c = CHR 0x09 then [CHR 0x5C, CHR ''t'']
      else [c])"

fun escape_json_loop :: "string \<Rightarrow> string \<Rightarrow> string" where
  "escape_json_loop result [] = result"
| "escape_json_loop result (c # s) = escape_json_loop (result @ escape_json_char c) s"

definition escape_json :: "string \<Rightarrow> string" where
  "escape_json s = escape_json_loop [] s"

text \<open>
  The line \<^verbatim>\<open>writeToFS\<close> formats (the same \<^verbatim>\<open>std::format\<close> call in both files): the
  message goes in as it is.
\<close>

definition fs_line :: "log_entry_t \<Rightarrow> string \<Rightarrow> string" where
  \<open>fs_line entry message =
     ''['' @ to_string_type (type entry) @ ''], {'' @ to_string_sev (sev entry)
     @ ''}, Activity: '' @ show_u64 (activity_uuid entry)
     @ '' Seq: '' @ show_u64 (seq_id entry)
     @ '' Parent: '' @ show_u64 (parent_uuid entry)
     @ '' -- '' @ message @ ''\<newline>''\<close>

text \<open>
  The repository holds two versions of \<^verbatim>\<open>Logger::writeToWS\<close>: the one of lib/logger.cpp
  (the file meson.build compiles) and the one of unnamed/part_001. \<open>payload\<close> is the
  JSON text each of them builds.
\<close>

datatype impl = Lib | Part001

fun payload :: "impl \<Rightarrow> log_entry_t \<Rightarrow> string \<Rightarrow> string" where
  \<open>payload Lib entry message =
     ''{''
     @ ''"timestamp":'' @ show_u64 (timestamp entry) @ '',''
     @ ''"type":"'' @ to_string_type (type entry) @ ''",''
     @ ''"severity":"'' @ to_string_sev (sev entry) @ ''",''
     @ ''"activity_uuid":'' @ show_u64 (activity_uuid entry) @ '',''
     @ ''"seq_id":'' @ show_u64 (seq_id entry) @ '',''
     @ ''"parent_uuid":'' @ show_u64 (parent_uuid entry) @ '',''
     @ ''"message":"'' @ message @ ''"''
     @ ''}''\<close>
| \<open>payload Part001 entry message =
     ''{"timestamp":'' @ show_u64 (timestamp entry)
     @ '',"type":"'' @ to_string_type (type entry)
     @ ''","severity":"'' @ to_string_sev (sev entry)
     @ ''","activity_uuid":"'' @ show_u64 (activity_uuid entry)
     @ ''","seq_id":'' @ show_u64 (seq_id entry)
     @ '',"parent_uuid":"'' @ show_u64 (parent_uuid entry)
     @ ''","message":"'' @ escape_json message @ ''"}''\<close>

section \<open>The Logger object and what it writes to\<close>

text \<open>
  The members of \<^verbatim>\<open>class Logger\<close> (its counter \<^verbatim>\<open>seq_id\<close> is \<open>logger_seq_id\<close>; the stream
  \<^verbatim>\<open>logFileStream\<close> is its two state bits), and the three places a call writes to: the
  bytes of the log file, the datagrams \<^verbatim>\<open>sendto\<close> accepted, and the lines of
  \<^verbatim>\<open>std::cerr\<close>.
\<close>

record Logger =
  logFilePath :: "string option"
  udsPath :: "string option"
  is_open :: bool
  stream_failed :: bool
  udsSock :: int
  logger_seq_id :: u64
  file_bytes :: string
  sent :: "string list"
  cerr :: "string list"

text \<open>
  What the operating system answers during one call of \<^verbatim>\<open>log\<close>: the steady clock in
  microseconds, whether the write behind \<^verbatim>\<open>flush\<close> succeeds, whether \<^verbatim>\<open>sendto\<close> on a
  valid socket succeeds, and the text of \<^verbatim>\<open>strerror(errno)\<close>.
\<close>

record env =
  now :: u64
  write_ok :: bool
  sendto_ok :: bool
  errstr :: string

text \<open>\<^verbatim>\<open>operator<<\<close> of a \<^verbatim>\<open>std::filesystem::path\<close> prints it quoted.\<close>

definition quoted :: "string \<Rightarrow> string" where
  "quoted p =
     [CHR 0x22]
     @ concat (map (\<lambda>c. if c = CHR 0x22 \<or> c = CHR 0x5C then [CHR 0x5C, c] else [c]) p)
     @ [CHR 0x22]"

text \<open>
  The constructor. \<open>open_ok\<close> says whether the file can be opened for appending,
  \<open>sock\<close> is what \<^verbatim>\<open>socket()\<close> returns, \<open>file0\<close> is what the file holds already.
\<close>

definition Logger_ctor ::
  "bool \<Rightarrow> int \<Rightarrow> string \<Rightarrow> string \<Rightarrow> string option \<Rightarrow> string option \<Rightarrow> Logger" where
  "Logger_ctor open_ok sock err file0 fpath upath =
     (let opened = (fpath \<noteq> None \<and> open_ok);
          diag1 = (case fpath of
                     None \<Rightarrow> []
                   | Some path \<Rightarrow>
                       if open_ok then [] else [''Failed to open log file: '' @ quoted path]);
          diag2 = (if upath \<noteq> None \<and> sock < 0
                   then [''notifySubscribers: Failed to create socket: '' @ err] else [])
      in \<lparr> logFilePath = fpath, udsPath = upath, is_open = opened, stream_failed = False,
           udsSock = (if upath \<noteq> None then sock else - 1), logger_seq_id = 0,
           file_bytes = file0, sent = [], cerr = diag1 @ diag2 \<rparr>)"

text \<open>
  \<^verbatim>\<open>Logger::writeToFS\<close>. A stream that is not open is reported and left. On an open
  stream the line is appended and flushed; when the write fails the stream keeps its
  error state, and every later output operation on it does nothing (the code never
  clears the state, and never looks at it).
\<close>

definition writeToFS :: "env \<Rightarrow> log_entry_t \<Rightarrow> string \<Rightarrow> Logger \<Rightarrow> Logger" where
  "writeToFS ev entry message L =
     (if \<not> is_open L then L\<lparr>cerr := cerr L @ [''Log file not open!'']\<rparr>
      else if stream_failed L then L
      else if write_ok ev then L\<lparr>file_bytes := file_bytes L @ fs_line entry message\<rparr>
      else L\<lparr>stream_failed := True\<rparr>)"

text \<open>
  \<^verbatim>\<open>sendto\<close>: the number of bytes sent, or \<open>-1\<close> (always so on the descriptor \<open>-1\<close> a
  failed \<^verbatim>\<open>socket()\<close> left behind).
\<close>

definition sendto :: "int \<Rightarrow> bool \<Rightarrow> string \<Rightarrow> int" where
  "sendto sock ok buf =
     (if sock < 0 then - 1 else if ok then int (length buf) else - 1)"

text \<open>\<^verbatim>\<open>Logger::writeToWS\<close>, in the version \<open>i\<close>.\<close>

definition writeToWS :: "impl \<Rightarrow> env \<Rightarrow> log_entry_t \<Rightarrow> string \<Rightarrow> Logger \<Rightarrow> Logger" where
  "writeToWS i ev entry message L =
     (let ret = sendto (udsSock L) (sendto_ok ev) (payload i entry message)
      in if ret < 0
         then L\<lparr>cerr := cerr L @ [''notifySubscribers: Failed to send payload: '' @ errstr ev]\<rparr>
         else L\<lparr>sent := sent L @ [payload i entry message]\<rparr>)"

text \<open>
  \<^verbatim>\<open>Logger::log\<close>. The whole body runs under \<^verbatim>\<open>std::lock_guard\<close> on \<^verbatim>\<open>writeMutex\<close>, so
  calls of several threads take effect one after the other, in the order they get the
  lock. \<open>log_entry\<close> is the entry the body fills in; \<open>log\<close> is the state the call leaves.
\<close>

definition log_entry ::
  "env \<Rightarrow> type_t \<Rightarrow> severity_t \<Rightarrow> string \<Rightarrow> u64 \<Rightarrow> u64 \<Rightarrow> Logger \<Rightarrow> log_entry_t" where
  "log_entry ev ty sv message act par L =
     \<lparr> type = ty, sev = sv, timestamp = now ev, activity_uuid = act,
       seq_id = logger_seq_id L + 1, parent_uuid = par,
       offset = 0, length_e = word_of_nat (length message) \<rparr>"

definition log ::
  "impl \<Rightarrow> env \<Rightarrow> type_t \<Rightarrow> severity_t \<Rightarrow> string \<Rightarrow> u64 \<Rightarrow> u64 \<Rightarrow> Logger \<Rightarrow> Logger" where
  "log i ev ty sv message act par L =
     (let entry = log_entry ev ty sv message act par L;
          L1 = L\<lparr>logger_seq_id := logger_seq_id L + 1\<rparr>;
          L2 = (if logFilePath L1 \<noteq> None then writeToFS ev entry message L1 else L1)
      in if udsPath L2 \<noteq> None then writeToWS i ev entry message L2 else L2)"

text \<open>
  A sequence of calls in the order they get the lock: each with what the system answers
  during it and its five arguments. \<open>entries\<close> lists the entries the calls fill in,
  each in the state the calls before it have left.
\<close>

record call =
  c_env :: env
  c_type :: type_t
  c_sev :: severity_t
  c_message :: string
  c_activity :: u64
  c_parent :: u64

definition log_call :: "impl \<Rightarrow> call \<Rightarrow> Logger \<Rightarrow> Logger" where
  "log_call i c L =
     log i (c_env c) (c_type c) (c_sev c) (c_message c) (c_activity c) (c_parent c) L"

definition entry_of_call :: "call \<Rightarrow> Logger \<Rightarrow> log_entry_t" where
  "entry_of_call c L =
     log_entry (c_env c) (c_type c) (c_sev c) (c_message c) (c_activity c) (c_parent c) L"

fun entries :: "impl \<Rightarrow> call list \<Rightarrow> Logger \<Rightarrow> log_entry_t list" where
  "entries i [] L = []"
| "entries i (c # cs) L = entry_of_call c L # entries i cs (log_call i c L)"

section \<open>The bridge thread of start_server\<close>

text \<open>
  \<^verbatim>\<open>Logger::start_server\<close> (the same code in lib/logger.cpp and unnamed/part_001) keeps
  the open WebSocket connections in a \<^verbatim>\<open>std::set<crow::websocket::connection*>\<close>, here
  the sorted list of their addresses without repetition; \<^verbatim>\<open>onopen\<close> inserts, \<^verbatim>\<open>onclose\<close>
  erases, and the bridge thread sends every datagram it reads to each of them, all three
  under \<^verbatim>\<open>wsMutex\<close>. \<open>inbox\<close> holds, per connection, the text frames \<^verbatim>\<open>send_text\<close> has
  taken for it.
\<close>

type_synonym conn = nat

record bridge =
  wsConnections :: "conn list"
  inbox :: "conn \<Rightarrow> string list"
  bridge_cout :: "string list"
  bridge_cerr :: "string list"

definition set_insert :: "conn \<Rightarrow> conn list \<Rightarrow> conn list" where
  "set_insert c cs = (if c \<in> set cs then cs else insort c cs)"

definition set_erase :: "conn \<Rightarrow> conn list \<Rightarrow> conn list" where
  "set_erase c cs = removeAll c cs"

text \<open>
  \<^verbatim>\<open>recv(sockfd, buffer, BUFFER_SIZE - 1, 0)\<close> on a datagram socket stores the first
  \<^verbatim>\<open>BUFFER_SIZE - 1\<close> bytes of the datagram and drops the rest; \<open>n\<close> is their number.
  After \<^verbatim>\<open>buffer[n] = '\0'\<close>, \<^verbatim>\<open>std::string(buffer)\<close> is the text up to the first zero
  byte.
\<close>

definition BUFFER_SIZE :: nat where
  "BUFFER_SIZE = 1024"

definition recv :: "string \<Rightarrow> string" where
  "recv dgram = take (BUFFER_SIZE - 1) dgram"

definition c_string :: "string \<Rightarrow> string" where
  "c_string buffer = takeWhile (\<lambda>c. c \<noteq> CHR 0x00) buffer"

text \<open>
  One turn of the \<^verbatim>\<open>for\<close> loop: \<^verbatim>\<open>send_text\<close> inside \<^verbatim>\<open>try\<close>. \<open>thrown conn\<close> says what
  \<^verbatim>\<open>send_text\<close> does on that connection: \<open>None\<close> when it takes the frame,
  \<open>Some what\<close> when it throws a \<^verbatim>\<open>std::exception\<close> with that text. The handler prints
  and the loop goes on.
\<close>

definition send_text_try :: "(conn \<Rightarrow> string option) \<Rightarrow> string \<Rightarrow> conn \<Rightarrow> bridge \<Rightarrow> bridge" where
  "send_text_try thrown text conn b =
     (case thrown conn of
        None \<Rightarrow> b\<lparr>inbox := (inbox b)(conn := inbox b conn @ [text])\<rparr>
      | Some what \<Rightarrow>
          b\<lparr>bridge_cerr := bridge_cerr b @ [''Failed to send via websocket: '' @ what]\<rparr>)"

fun broadcast :: "(conn \<Rightarrow> string option) \<Rightarrow> string \<Rightarrow> conn list \<Rightarrow> bridge \<Rightarrow> bridge" where
  "broadcast thrown text [] b = b"
| "broadcast thrown text (conn # rest) b =
     broadcast thrown text rest (send_text_try thrown text conn b)"

text \<open>
  What happens to the bridge, one event at a time: a connection opens, a connection
  closes, \<^verbatim>\<open>recv\<close> returns a datagram (with what \<^verbatim>\<open>send_text\<close> will do during its
  broadcast), or \<^verbatim>\<open>recv\<close> fails.
\<close>

datatype event =
  OnOpen conn
| OnClose conn string
| Datagram string "conn \<Rightarrow> string option"
| RecvFailed

fun bridge_step :: "event \<Rightarrow> bridge \<Rightarrow> bridge" where
  "bridge_step (OnOpen conn) b =
     b\<lparr>wsConnections := set_insert conn (wsConnections b),
       bridge_cout := bridge_cout b @ [''WebSocket connection opened'']\<rparr>"
| "bridge_step (OnClose conn reason) b =
     b\<lparr>wsConnections := set_erase conn (wsConnections b),
       bridge_cout := bridge_cout b @ [''WebSocket connection closed: '' @ reason]\<rparr>"
| "bridge_step (Datagram dgram thrown) b =
     (let buffer = recv dgram; n = length buffer
      in if n > 0
         then broadcast thrown (c_string buffer) (wsConnections b)
                (b\<lparr>bridge_cout := bridge_cout b @ [''UDS Bridge received: '' @ c_string buffer]\<rparr>)
         else b)"
| "bridge_step RecvFailed b = b"

fun bridge_run :: "event list \<Rightarrow> bridge \<Rightarrow> bridge" where
  "bridge_run [] b = b"
| "bridge_run (e # es) b = bridge_run es (bridge_step e b)"

definition bridge0 :: bridge where
  "bridge0 = \<lparr> wsConnections = [], inbox = (\<lambda>c. []), bridge_cout = [], bridge_cerr = [] \<rparr>"

section \<open>Basic facts\<close>

lemma logger_seq_id_writeToFS: "logger_seq_id (writeToFS ev e m L) = logger_seq_id L"
  by (simp add: writeToFS_def)

lemma logger_seq_id_writeToWS: "logger_seq_id (writeToWS i ev e m L) = logger_seq_id L"
  by (simp add: writeToWS_def Let_def)

lemma logger_seq_id_log: "logger_seq_id (log i ev ty sv m a p L) = logger_seq_id L + 1"
  by (simp add: log_def Let_def logger_seq_id_writeToFS logger_seq_id_writeToWS)

lemma seq_id_entry_of_call: "seq_id (entry_of_call c L) = logger_seq_id L + 1"
  by (simp add: entry_of_call_def log_entry_def)

lemma logger_seq_id_log_call: "logger_seq_id (log_call i c L) = logger_seq_id L + 1"
  by (simp add: log_call_def logger_seq_id_log)

lemma map_seq_id_entries:
  "map seq_id (entries i cs L) = map (\<lambda>k. logger_seq_id L + word_of_nat k) [1..<Suc (length cs)]"
proof (induction cs arbitrary: L)
  case Nil
  show ?case by simp
next
  case (Cons c cs)
  have "[1..<Suc (length (c # cs))] = 1 # map Suc [1..<Suc (length cs)]"
    by (simp add: upt_conv_Cons map_Suc_upt del: upt_Suc)
  then show ?case
    by (simp add: Cons.IH seq_id_entry_of_call logger_seq_id_log_call add.assoc del: upt_Suc)
qed

lemma logger_seq_id_ctor: "logger_seq_id (Logger_ctor open_ok sock err file0 fpath upath) = 0"
  by (simp add: Logger_ctor_def Let_def)

lemma unat_seq_upto:
  assumes "n < 2 ^ 64"
  shows "map (\<lambda>k. unat (word_of_nat k :: u64)) [1..<Suc n] = [1..<Suc n]"
proof -
  have small: "unat (word_of_nat k :: u64) = k" if "k \<in> set [1..<Suc n]" for k
  proof -
    from that assms have "k < 2 ^ 64" by auto
    then show ?thesis by (simp add: unat_of_nat)
  qed
  show ?thesis by (rule map_idI) (rule small)
qed

lemma show_u64_0: "show_u64 0 = ''0''"
  by (simp add: show_u64_def dec.simps digit_char_def)

lemma show_u64_1: "show_u64 1 = ''1''"
  by (simp add: show_u64_def dec.simps digit_char_def)

lemma show_u64_7: "show_u64 7 = ''7''"
  by (simp add: show_u64_def dec.simps digit_char_def)

lemma show_u64_12345: "show_u64 12345 = ''12345''"
  by (simp add: show_u64_def dec.simps digit_char_def)

lemma escape_json_loop_concat:
  "escape_json_loop result s = result @ concat (map escape_json_char s)"
  by (induction s arbitrary: result) simp_all

lemma escape_json_concat: "escape_json s = concat (map escape_json_char s)"
  by (simp add: escape_json_def escape_json_loop_concat)

lemma escape_json_plain:
  assumes "set message \<inter> {CHR 0x22, CHR 0x5C, CHR 0x08, CHR 0x0C, CHR 0x0A, CHR 0x0D, CHR 0x09} = {}"
  shows "escape_json message = message"
  using assms
proof (induction message)
  case Nil
  show ?case by (simp add: escape_json_concat)
next
  case (Cons c s)
  from Cons.prems have "escape_json_char c = [c]"
    by (auto simp: escape_json_char_def)
  moreover from Cons have "escape_json s = s"
    by simp
  ultimately show ?case
    by (simp add: escape_json_concat)
qed

section \<open>Facts about the bridge\<close>

lemma wsConnections_send_text_try: "wsConnections (send_text_try th t c b) = wsConnections b"
  by (simp add: send_text_try_def split: option.splits)

lemma wsConnections_broadcast: "wsConnections (broadcast th t cs b) = wsConnections b"
  by (induction cs arbitrary: b) (simp_all add: wsConnections_send_text_try)

lemma inbox_send_text_try:
  "inbox (send_text_try th t c b) c' =
     (if c' = c \<and> th c = None then inbox b c' @ [t] else inbox b c')"
  by (simp add: send_text_try_def split: option.splits)

lemma inbox_broadcast_other: "c \<notin> set cs \<Longrightarrow> inbox (broadcast th t cs b) c = inbox b c"
  by (induction cs arbitrary: b) (auto simp: inbox_send_text_try)

lemma inbox_broadcast:
  "distinct cs \<Longrightarrow>
   inbox (broadcast th t cs b) c =
     (if c \<in> set cs \<and> th c = None then inbox b c @ [t] else inbox b c)"
proof (induction cs arbitrary: b)
  case Nil
  show ?case by simp
next
  case (Cons x xs)
  show ?case
  proof (cases "c = x")
    case True
    with Cons.prems have "c \<notin> set xs" by simp
    then show ?thesis
      using True by (simp add: inbox_broadcast_other inbox_send_text_try)
  next
    case False
    with Cons show ?thesis
      by (simp add: inbox_send_text_try)
  qed
qed

lemma inbox_broadcast_cong:
  assumes "inbox b1 c = inbox b2 c"
  shows "inbox (broadcast th t cs b1) c = inbox (broadcast th t cs b2) c"
  using assms
proof (induction cs arbitrary: b1 b2)
  case Nil
  then show ?case by simp
next
  case (Cons x xs)
  have "inbox (send_text_try th t x b1) c = inbox (send_text_try th t x b2) c"
    using Cons.prems by (auto simp: inbox_send_text_try)
  then have "inbox (broadcast th t xs (send_text_try th t x b1)) c
             = inbox (broadcast th t xs (send_text_try th t x b2)) c"
    by (rule Cons.IH)
  then show ?case by simp
qed

lemma distinct_set_insert: "distinct cs \<Longrightarrow> distinct (set_insert c cs)"
  by (simp add: set_insert_def distinct_insort)

lemma distinct_bridge_step:
  "distinct (wsConnections b) \<Longrightarrow> distinct (wsConnections (bridge_step e b))"
  by (cases e)
    (simp_all add: distinct_set_insert set_erase_def distinct_removeAll Let_def
      wsConnections_broadcast)

lemma distinct_bridge_run:
  "distinct (wsConnections b) \<Longrightarrow> distinct (wsConnections (bridge_run es b))"
  by (induction es arbitrary: b) (simp_all add: distinct_bridge_step)

lemma distinct_reachable: "distinct (wsConnections (bridge_run es bridge0))"
  by (rule distinct_bridge_run) (simp add: bridge0_def)

lemma bridge_step_agree:
  assumes "wsConnections b1 = wsConnections b2" "inbox b1 c = inbox b2 c"
  shows "wsConnections (bridge_step e b1) = wsConnections (bridge_step e b2)
         \<and> inbox (bridge_step e b1) c = inbox (bridge_step e b2) c"
proof (cases e)
  case (OnOpen x)
  with assms show ?thesis by simp
next
  case (OnClose x r)
  with assms show ?thesis by simp
next
  case (Datagram d th)
  have "inbox (broadcast th t (wsConnections b1) (b1\<lparr>bridge_cout := o1\<rparr>)) c
        = inbox (broadcast th t (wsConnections b1) (b2\<lparr>bridge_cout := o2\<rparr>)) c" for t o1 o2
    by (rule inbox_broadcast_cong) (simp add: assms(2))
  with assms(1) assms(2) Datagram show ?thesis
    by (simp add: Let_def wsConnections_broadcast)
next
  case RecvFailed
  with assms show ?thesis by simp
qed

lemma bridge_run_agree:
  assumes "wsConnections b1 = wsConnections b2" "inbox b1 c = inbox b2 c"
  shows "inbox (bridge_run es b1) c = inbox (bridge_run es b2) c"
  using assms
proof (induction es arbitrary: b1 b2)
  case Nil
  then show ?case by simp
next
  case (Cons e es)
  from bridge_step_agree [OF Cons.prems, of e]
  have "inbox (bridge_run es (bridge_step e b1)) c = inbox (bridge_run es (bridge_step e b2)) c"
    by (intro Cons.IH) simp_all
  then show ?case by simp
qed

lemma datagram_step_conns:
  "wsConnections (bridge_step (Datagram d th) b) = wsConnections b"
  by (simp add: Let_def wsConnections_broadcast)

lemma datagram_step_inbox:
  assumes "distinct (wsConnections b)" "d \<noteq> []"
  shows "inbox (bridge_step (Datagram d th) b) c =
           (if c \<in> set (wsConnections b) \<and> th c = None
            then inbox b c @ [c_string (recv d)] else inbox b c)"
proof -
  from assms(2) have "recv d \<noteq> []"
    by (simp add: recv_def BUFFER_SIZE_def)
  then show ?thesis
    using assms(1) by (simp add: Let_def inbox_broadcast)
qed

lemma forwarded_whole:
  assumes "length d < BUFFER_SIZE" "CHR 0x00 \<notin> set d"
  shows "c_string (recv d) = d"
proof -
  from assms(1) have "recv d = d"
    by (simp add: recv_def)
  moreover from assms(2) have "takeWhile (\<lambda>c. c \<noteq> CHR 0x00) d = d"
    by (simp add: takeWhile_eq_all_conv) metis
  ultimately show ?thesis by (simp add: c_string_def)
qed

section \<open>The claims\<close>

subsection \<open>C1: sequence numbers\<close>

text \<open>
  C1, as far as it holds. A \<^verbatim>\<open>Logger\<close> is constructed (with any paths, whether or not the
  file opens and the socket is created) and \<open>N\<close> calls of \<^verbatim>\<open>log\<close> follow in the order
  they get the lock, with any arguments and any failures of the sinks. If \<open>N < 2^64\<close>,
  the entries carry the sequence numbers \<open>1, 2, ..., N\<close> in this order: their set is
  \<open>{1..N}\<close>, and no number is given twice.
\<close>

theorem seq_ids_gapless:
  assumes "length cs < 2 ^ 64"
  shows "map (\<lambda>e. unat (seq_id e))
           (entries i cs (Logger_ctor open_ok sock err file0 fpath upath))
         = [1..<Suc (length cs)]
       \<and> set (map (\<lambda>e. unat (seq_id e))
           (entries i cs (Logger_ctor open_ok sock err file0 fpath upath)))
         = {1 .. length cs}
       \<and> distinct (map seq_id (entries i cs (Logger_ctor open_ok sock err file0 fpath upath)))"
proof -
  let ?es = "entries i cs (Logger_ctor open_ok sock err file0 fpath upath)"
  have "map (\<lambda>e. unat (seq_id e)) ?es = map unat (map seq_id ?es)"
    by simp
  also have "\<dots> = map (\<lambda>k. unat (word_of_nat k :: u64)) [1..<Suc (length cs)]"
    by (simp add: map_seq_id_entries logger_seq_id_ctor del: upt_Suc)
  also have "\<dots> = [1..<Suc (length cs)]"
    using assms by (rule unat_seq_upto)
  finally have eq: "map (\<lambda>e. unat (seq_id e)) ?es = [1..<Suc (length cs)]" .
  have "set [1..<Suc (length cs)] = {1 .. length cs}"
    by (simp add: atLeastLessThanSuc_atLeastAtMost del: upt_Suc)
  with eq have all: "set (map (\<lambda>e. unat (seq_id e)) ?es) = {1 .. length cs}"
    by simp
  have "distinct (map (\<lambda>e. unat (seq_id e)) ?es)"
    unfolding eq by (rule distinct_upt)
  then have "distinct (map unat (map seq_id ?es))"
    by (simp add: comp_def)
  then have "distinct (map seq_id ?es)"
    by (rule distinct_map [THEN iffD1, THEN conjunct1])
  with eq all show ?thesis
    by simp
qed

text \<open>
  Three calls on a logger whose file could not be opened and whose socket could not be
  created: the numbers are \<open>1, 2, 3\<close>.
\<close>

theorem seq_ids_gapless_witness:
  "map (\<lambda>e. unat (seq_id e))
     (entries Part001
        [\<lparr> c_env = \<lparr> now = 10, write_ok = False, sendto_ok = False, errstr = ''ENOENT'' \<rparr>,
           c_type = OK, c_sev = NONE, c_message = ''a'', c_activity = 0, c_parent = 0 \<rparr>,
         \<lparr> c_env = \<lparr> now = 11, write_ok = True, sendto_ok = True, errstr = [] \<rparr>,
           c_type = PANIC, c_sev = HIGH, c_message = ''b'', c_activity = 5, c_parent = 1 \<rparr>,
         \<lparr> c_env = \<lparr> now = 11, write_ok = True, sendto_ok = False, errstr = [] \<rparr>,
           c_type = INFO, c_sev = MID, c_message = [], c_activity = 5, c_parent = 2 \<rparr>]
        (Logger_ctor False (- 1) ''EMFILE'' [] (Some ''/nonexistent/a.0'') (Some ''/tmp/b.0'')))
   = [1, 2, 3]"
proof -
  have h: "length
     [\<lparr> c_env = \<lparr> now = 10, write_ok = False, sendto_ok = False, errstr = ''ENOENT'' \<rparr>,
        c_type = OK, c_sev = NONE, c_message = ''a'', c_activity = 0, c_parent = 0 \<rparr>,
      \<lparr> c_env = \<lparr> now = 11, write_ok = True, sendto_ok = True, errstr = [] \<rparr>,
        c_type = PANIC, c_sev = HIGH, c_message = ''b'', c_activity = 5, c_parent = 1 \<rparr>,
      \<lparr> c_env = \<lparr> now = 11, write_ok = True, sendto_ok = False, errstr = [] \<rparr>,
        c_type = INFO, c_sev = MID, c_message = [], c_activity = 5, c_parent = 2 \<rparr>]
     < 2 ^ 64"
    by simp
  have upt: "[1..<Suc 3] = [1, 2, 3]"
    by (simp add: upt_rec)
  show ?thesis
    using seq_ids_gapless [OF h, of Part001 False "- 1" "''EMFILE''" "[]"
        "Some ''/nonexistent/a.0''" "Some ''/tmp/b.0''"] upt
    by simp
qed

text \<open>
  C1 as stated, for every finite number of calls, fails where the 64-bit counter wraps
  around: after \<open>2^64\<close> calls on a fresh logger the last entry has the sequence number
  \<open>0\<close>, so the numbers given are not the set \<open>{1..2^64}\<close>.
\<close>

theorem seq_ids_wrap_counterexample:
  "set (map (\<lambda>e. unat (seq_id e))
         (entries Lib
            (replicate (2 ^ 64)
               \<lparr> c_env = \<lparr> now = 0, write_ok = True, sendto_ok = True, errstr = [] \<rparr>,
                 c_type = INFO, c_sev = MID, c_message = [], c_activity = 0, c_parent = 0 \<rparr>)
            (Logger_ctor True 3 [] [] (Some ''/tmp/a.0'') (Some ''/tmp/b.0''))))
   \<noteq> {1 .. 2 ^ 64}"
proof -
  define N :: nat where "N = 2 ^ 64"
  define c where "c = \<lparr> c_env = \<lparr> now = 0, write_ok = True, sendto_ok = True, errstr = [] \<rparr>,
                 c_type = INFO, c_sev = MID, c_message = [], c_activity = 0, c_parent = 0 \<rparr>"
  define L where "L = Logger_ctor True 3 [] [] (Some ''/tmp/a.0'') (Some ''/tmp/b.0'')"
  have N0: "(word_of_nat N :: u64) = 0"
    by (simp add: N_def)
  have "N \<in> set [1..<Suc N]"
    by (simp add: N_def)
  then have "(word_of_nat N :: u64) \<in> set (map (\<lambda>k. logger_seq_id L + word_of_nat k) [1..<Suc N])"
    unfolding L_def logger_seq_id_ctor by (simp del: upt_Suc)
  then have "(0 :: u64) \<in> set (map seq_id (entries Lib (replicate N c) L))"
    by (simp add: map_seq_id_entries N0 del: upt_Suc)
  then have "0 \<in> set (map (\<lambda>e. unat (seq_id e)) (entries Lib (replicate N c) L))"
    by force
  moreover have "(0::nat) \<notin> {1 .. N}"
    by simp
  ultimately have "set (map (\<lambda>e. unat (seq_id e)) (entries Lib (replicate N c) L)) \<noteq> {1 .. N}"
    by metis
  then show ?thesis
    unfolding N_def c_def L_def .
qed

subsection \<open>C2: what the bridge relays\<close>

text \<open>
  C2 at its failing inputs. One connection is open and \<^verbatim>\<open>send_text\<close> does not throw.
  Of the three bytes \<^verbatim>\<open>A\<close>, zero, \<^verbatim>\<open>B\<close> the connection is sent the first byte only. Of the
  payload that \<^verbatim>\<open>writeToWS\<close> of lib/logger.cpp builds for the message \<^verbatim>\<open>A\<close>, zero, \<^verbatim>\<open>B\<close> it
  is sent the part before the zero byte, which is not the whole payload. Of a datagram
  of 1024 bytes it is sent the first 1023. The loop has the number \<open>n\<close> of bytes read,
  but builds the frame from the buffer as a zero-terminated string, and \<^verbatim>\<open>recv\<close> is given
  a buffer of \<^verbatim>\<open>BUFFER_SIZE - 1\<close> bytes.
\<close>

theorem relay_truncates_payload:
  \<open>inbox (bridge_run [OnOpen 1, Datagram [CHR ''A'', CHR 0x00, CHR ''B''] (\<lambda>c. None)] bridge0) 1
     = [''A'']
   \<and> inbox
       (bridge_run
          [OnOpen 1,
           Datagram
             (payload Lib
                \<lparr> type = INFO, sev = MID, timestamp = 7, activity_uuid = 12345, seq_id = 1,
                  parent_uuid = 0, offset = 0, length_e = 3 \<rparr>
                [CHR ''A'', CHR 0x00, CHR ''B''])
             (\<lambda>c. None)] bridge0) 1
     = [''{"timestamp":7,"type":"INFO","severity":"MID","activity_uuid":12345,"seq_id":1,"parent_uuid":0,"message":"A'']
   \<and> inbox
       (bridge_run [OnOpen 1, Datagram (replicate 1024 (CHR ''a'')) (\<lambda>c. None)] bridge0) 1
     = [replicate 1023 (CHR ''a'')]\<close>
proof -
  have one: "inbox (bridge_run [OnOpen 1, Datagram [CHR ''A'', CHR 0x00, CHR ''B''] (\<lambda>c. None)]
               bridge0) 1 = [''A'']"
    by (simp add: bridge0_def set_insert_def recv_def BUFFER_SIZE_def c_string_def
        send_text_try_def Let_def)
  have two: \<open>inbox
       (bridge_run
          [OnOpen 1,
           Datagram
             (payload Lib
                \<lparr> type = INFO, sev = MID, timestamp = 7, activity_uuid = 12345, seq_id = 1,
                  parent_uuid = 0, offset = 0, length_e = 3 \<rparr>
                [CHR ''A'', CHR 0x00, CHR ''B''])
             (\<lambda>c. None)] bridge0) 1
     = [''{"timestamp":7,"type":"INFO","severity":"MID","activity_uuid":12345,"seq_id":1,"parent_uuid":0,"message":"A'']\<close>
    by (simp add: bridge0_def set_insert_def recv_def BUFFER_SIZE_def c_string_def
        send_text_try_def Let_def show_u64_0 show_u64_1 show_u64_7 show_u64_12345)
  have cut: "c_string (recv (replicate 1024 (CHR ''a''))) = replicate 1023 (CHR ''a'')"
    by (simp add: recv_def BUFFER_SIZE_def c_string_def takeWhile_replicate)
  have conns: "wsConnections (bridge_run [OnOpen 1] bridge0) = [1]"
    by (simp add: bridge0_def set_insert_def)
  have box: "inbox (bridge_run [OnOpen 1] bridge0) 1 = []"
    by (simp add: bridge0_def set_insert_def)
  have "inbox (bridge_step (Datagram (replicate 1024 (CHR ''a'')) (\<lambda>c. None))
                 (bridge_run [OnOpen 1] bridge0)) 1
        = inbox (bridge_run [OnOpen 1] bridge0) 1 @ [c_string (recv (replicate 1024 (CHR ''a'')))]"
    using conns
    by (simp add: datagram_step_inbox distinct_reachable del: bridge_step.simps bridge_run.simps)
  then have three: "inbox
       (bridge_run [OnOpen 1, Datagram (replicate 1024 (CHR ''a'')) (\<lambda>c. None)] bridge0) 1
     = [replicate 1023 (CHR ''a'')]"
    using box cut by (simp del: bridge_step.simps)
  from one two three show ?thesis
    by (simp only: simp_thms)
qed

text \<open>
  Where the relay is exact. The bridge has seen any events \<open>evs\<close>; then \<^verbatim>\<open>recv\<close> returns a
  datagram that is not empty, is shorter than the buffer and has no zero byte. Every
  connection that is in \<^verbatim>\<open>wsConnections\<close> at that moment, and on which \<^verbatim>\<open>send_text\<close> does
  not throw, is sent exactly one more frame, the bytes of the datagram. For a connection
  that is not in the set at that moment the datagram changes nothing, whatever happens
  later (also when it opens afterwards): its frames are those it would have without the
  datagram.
\<close>

theorem relay_unmodified:
  assumes "dgram \<noteq> []" "length dgram < BUFFER_SIZE" "CHR 0x00 \<notin> set dgram"
  shows "(\<forall>c \<in> set (wsConnections (bridge_run evs bridge0)). thrown c = None \<longrightarrow>
            inbox (bridge_step (Datagram dgram thrown) (bridge_run evs bridge0)) c
              = inbox (bridge_run evs bridge0) c @ [dgram])
       \<and> (\<forall>c later. c \<notin> set (wsConnections (bridge_run evs bridge0)) \<longrightarrow>
            inbox (bridge_run (Datagram dgram thrown # later) (bridge_run evs bridge0)) c
              = inbox (bridge_run later (bridge_run evs bridge0)) c)"
proof (intro conjI ballI allI impI)
  fix c
  assume "c \<in> set (wsConnections (bridge_run evs bridge0))" "thrown c = None"
  then show "inbox (bridge_step (Datagram dgram thrown) (bridge_run evs bridge0)) c
              = inbox (bridge_run evs bridge0) c @ [dgram]"
    using assms
    by (simp add: datagram_step_inbox distinct_reachable forwarded_whole del: bridge_step.simps)
next
  fix c later
  assume out: "c \<notin> set (wsConnections (bridge_run evs bridge0))"
  have "inbox (bridge_step (Datagram dgram thrown) (bridge_run evs bridge0)) c
          = inbox (bridge_run evs bridge0) c"
    using out assms(1)
    by (simp add: datagram_step_inbox distinct_reachable del: bridge_step.simps)
  with datagram_step_conns
  have "inbox (bridge_run later (bridge_step (Datagram dgram thrown) (bridge_run evs bridge0))) c
          = inbox (bridge_run later (bridge_run evs bridge0)) c"
    by (rule bridge_run_agree)
  then show "inbox (bridge_run (Datagram dgram thrown # later) (bridge_run evs bridge0)) c
              = inbox (bridge_run later (bridge_run evs bridge0)) c"
    by simp
qed

text \<open>
  Two connections are open and the datagram \<^verbatim>\<open>{}\<close> arrives: connection 2 is sent \<^verbatim>\<open>{}\<close>.
  Connection 3 opens afterwards and a second datagram \<^verbatim>\<open>x\<close> arrives: connection 3 has
  been sent \<^verbatim>\<open>x\<close> only.
\<close>

theorem relay_unmodified_witness:
  "inbox (bridge_step (Datagram ''{}'' (\<lambda>c. None)) (bridge_run [OnOpen 1, OnOpen 2] bridge0)) 2
     = [''{}'']
   \<and> inbox (bridge_run [Datagram ''{}'' (\<lambda>c. None), OnOpen 3, Datagram ''x'' (\<lambda>c. None)]
              (bridge_run [OnOpen 1, OnOpen 2] bridge0)) 3
     = [''x'']"
proof -
  have h1: "''{}'' \<noteq> []" by simp
  have h2: "length ''{}'' < BUFFER_SIZE" by (simp add: BUFFER_SIZE_def)
  have h3: "CHR 0x00 \<notin> set ''{}''" by simp
  have conns: "wsConnections (bridge_run [OnOpen 1, OnOpen 2] bridge0) = [1, 2]"
    by (simp add: bridge0_def set_insert_def)
  have box: "inbox (bridge_run [OnOpen 1, OnOpen 2] bridge0) = (\<lambda>c. [])"
    by (simp add: bridge0_def set_insert_def)
  have later: "inbox (bridge_run [OnOpen 3, Datagram ''x'' (\<lambda>c. None)]
                 (bridge_run [OnOpen 1, OnOpen 2] bridge0)) 3 = [''x'']"
    by (simp add: bridge0_def set_insert_def recv_def BUFFER_SIZE_def c_string_def
        send_text_try_def Let_def)
  show ?thesis
    using relay_unmodified [OF h1 h2 h3, of "[OnOpen 1, OnOpen 2]" "\<lambda>c. None"] conns box later
    by (simp del: bridge_run.simps bridge_step.simps)
qed

subsection \<open>C3: failures of the sinks\<close>

text \<open>
  C3 at its failing input. The log file is open and the write of the first entry fails:
  the call runs to its end and \<^verbatim>\<open>std::cerr\<close> stays empty; the failure is recorded in
  the error state of the stream, which the code never looks at. The same call on a logger
  whose file could not be opened is reported on \<^verbatim>\<open>std::cerr\<close>, as is a failing
  \<^verbatim>\<open>sendto\<close>: \<^verbatim>\<open>writeToFS\<close> checks \<^verbatim>\<open>is_open\<close> before the write and nothing after it.
\<close>

theorem write_error_not_reported:
  \<open>cerr (log Lib \<lparr> now = 7, write_ok = False, sendto_ok = True, errstr = ''ENOSPC'' \<rparr>
           INFO MID ''m'' 0 0
           (Logger_ctor True 3 [] [] (Some ''/tmp/a.0'') None)) = []
   \<and> stream_failed
        (log Lib \<lparr> now = 7, write_ok = False, sendto_ok = True, errstr = ''ENOSPC'' \<rparr>
           INFO MID ''m'' 0 0
           (Logger_ctor True 3 [] [] (Some ''/tmp/a.0'') None))
   \<and> logger_seq_id
        (log Lib \<lparr> now = 7, write_ok = False, sendto_ok = True, errstr = ''ENOSPC'' \<rparr>
           INFO MID ''m'' 0 0
           (Logger_ctor True 3 [] [] (Some ''/tmp/a.0'') None)) = 1
   \<and> cerr (log Lib \<lparr> now = 7, write_ok = True, sendto_ok = True, errstr = [] \<rparr>
           INFO MID ''m'' 0 0
           (Logger_ctor False 3 [] [] (Some ''/tmp/a.0'') None))
     = [''Failed to open log file: "/tmp/a.0"'', ''Log file not open!'']
   \<and> cerr (log Lib \<lparr> now = 7, write_ok = True, sendto_ok = False, errstr = ''ENOENT'' \<rparr>
           INFO MID ''m'' 0 0
           (Logger_ctor True 3 [] [] None (Some ''/tmp/b.0'')))
     = [''notifySubscribers: Failed to send payload: ENOENT'']\<close>
  by (simp add: log_def Let_def Logger_ctor_def writeToFS_def writeToWS_def sendto_def
      quoted_def)

text \<open>
  The state a call of \<^verbatim>\<open>log\<close> leaves, in full, whatever the logger's state, the arguments
  and the answers of the system. The counter has advanced by one. \<^verbatim>\<open>std::cerr\<close> has got
  one line when the file sink is configured and its stream is not open, and one line when
  the publisher is configured and \<^verbatim>\<open>sendto\<close> fails (always so when the socket could not
  be created), and nothing else. The file has got the line of the entry exactly when the
  stream is open, in good state and the write succeeds; the stream is in its error state
  afterwards exactly when it was so before, or the sink is configured, the stream open
  and the write failed. The datagram has been sent exactly when the socket exists and
  \<^verbatim>\<open>sendto\<close> succeeds, whatever happened in the file sink before. The configuration of
  the sinks is as before.
\<close>

lemma log_state_after:
  "cerr (log i ev ty sv message act par L)
     = cerr L
       @ (if logFilePath L = None then []
          else if is_open L then [] else [''Log file not open!''])
       @ (if udsPath L = None then []
          else if udsSock L < 0
               then [''notifySubscribers: Failed to send payload: '' @ errstr ev]
          else if sendto_ok ev then []
          else [''notifySubscribers: Failed to send payload: '' @ errstr ev])
   \<and> file_bytes (log i ev ty sv message act par L)
     = file_bytes L
       @ (if logFilePath L = None then []
          else if is_open L
               then (if stream_failed L then []
                     else if write_ok ev
                          then fs_line (log_entry ev ty sv message act par L) message
                     else [])
          else [])
   \<and> stream_failed (log i ev ty sv message act par L)
     = (if stream_failed L then True
        else if logFilePath L = None then False
        else if is_open L then (if write_ok ev then False else True)
        else False)
   \<and> sent (log i ev ty sv message act par L)
     = sent L
       @ (if udsPath L = None then []
          else if udsSock L < 0 then []
          else if sendto_ok ev
               then [payload i (log_entry ev ty sv message act par L) message]
          else [])
   \<and> logger_seq_id (log i ev ty sv message act par L) = logger_seq_id L + 1
   \<and> logFilePath (log i ev ty sv message act par L) = logFilePath L
   \<and> udsPath (log i ev ty sv message act par L) = udsPath L
   \<and> is_open (log i ev ty sv message act par L) = is_open L
   \<and> udsSock (log i ev ty sv message act par L) = udsSock L"
proof -
  have c: "cerr (log i ev ty sv message act par L)
     = cerr L
       @ (if logFilePath L = None then []
          else if is_open L then [] else [''Log file not open!''])
       @ (if udsPath L = None then []
          else if udsSock L < 0
               then [''notifySubscribers: Failed to send payload: '' @ errstr ev]
          else if sendto_ok ev then []
          else [''notifySubscribers: Failed to send payload: '' @ errstr ev])"
    by (simp add: log_def Let_def writeToFS_def writeToWS_def sendto_def)
  have f: "file_bytes (log i ev ty sv message act par L)
     = file_bytes L
       @ (if logFilePath L = None then []
          else if is_open L
               then (if stream_failed L then []
                     else if write_ok ev
                          then fs_line (log_entry ev ty sv message act par L) message
                     else [])
          else [])"
    by (simp add: log_def Let_def writeToFS_def writeToWS_def sendto_def)
  have e: "stream_failed (log i ev ty sv message act par L)
     = (if stream_failed L then True
        else if logFilePath L = None then False
        else if is_open L then (if write_ok ev then False else True)
        else False)"
    by (simp add: log_def Let_def writeToFS_def writeToWS_def sendto_def)
  have s: "sent (log i ev ty sv message act par L)
     = sent L
       @ (if udsPath L = None then []
          else if udsSock L < 0 then []
          else if sendto_ok ev
               then [payload i (log_entry ev ty sv message act par L) message]
          else [])"
    by (simp add: log_def Let_def writeToFS_def writeToWS_def sendto_def)
  have r: "logFilePath (log i ev ty sv message act par L) = logFilePath L
     \<and> udsPath (log i ev ty sv message act par L) = udsPath L
     \<and> is_open (log i ev ty sv message act par L) = is_open L
     \<and> udsSock (log i ev ty sv message act par L) = udsSock L"
    by (simp add: log_def Let_def writeToFS_def writeToWS_def sendto_def)
  from c f e s r show ?thesis
    by (simp only: logger_seq_id_log simp_thms)
qed

subsection \<open>C4: escaping in the published JSON\<close>

text \<open>
  C4 at its failing inputs. \<^verbatim>\<open>escape_json\<close> of unnamed/part_001 passes the control
  character \<open>0x01\<close> on as it is (its \<^verbatim>\<open>switch\<close> has cases for the quote, the backslash
  and five control characters only), so the payload holds a raw control character inside
  the string; \<^verbatim>\<open>writeToWS\<close> of lib/logger.cpp escapes nothing, so a message that is one
  quote character gives a payload that ends in three quotes.
\<close>

theorem escape_json_gaps:
  \<open>escape_json [CHR 0x01] = [CHR 0x01]
   \<and> payload Part001
        \<lparr> type = INFO, sev = MID, timestamp = 7, activity_uuid = 12345, seq_id = 1,
          parent_uuid = 0, offset = 0, length_e = 1 \<rparr> [CHR 0x01]
     = ''{"timestamp":7,"type":"INFO","severity":"MID","activity_uuid":"12345","seq_id":1,"parent_uuid":"0","message":"''
       @ [CHR 0x01] @ ''"}''
   \<and> payload Lib
        \<lparr> type = INFO, sev = MID, timestamp = 7, activity_uuid = 12345, seq_id = 1,
          parent_uuid = 0, offset = 0, length_e = 1 \<rparr> ''"''
     = ''{"timestamp":7,"type":"INFO","severity":"MID","activity_uuid":12345,"seq_id":1,"parent_uuid":0,"message":"""}''\<close>
  by (simp add: escape_json_concat escape_json_char_def show_u64_0 show_u64_1 show_u64_7
      show_u64_12345)

subsection \<open>C5: one line per entry in the file\<close>

text \<open>
  C5 at its failing input. The first call on a fresh logger with an open, empty file,
  with the message \<^verbatim>\<open>a\<close>, line feed, \<^verbatim>\<open>b\<close>: \<^verbatim>\<open>writeToFS\<close> of either file puts the message
  into the line as it is, and the file ends up with two line feeds, that is two lines
  for one entry.
\<close>

theorem file_sink_newline_not_escaped:
  \<open>file_bytes
     (log i \<lparr> now = T, write_ok = True, sendto_ok = ok, errstr = es \<rparr>
        INFO MID ''a\<newline>b'' 0 0
        (Logger_ctor True fd err [] (Some fp) None))
   = ''[INFO], {MID}, Activity: 0 Seq: 1 Parent: 0 -- a\<newline>b\<newline>''
   \<and> length (filter (\<lambda>c. c = CHR 0x0A)
        (file_bytes
          (log i \<lparr> now = T, write_ok = True, sendto_ok = ok, errstr = es \<rparr>
            INFO MID ''a\<newline>b'' 0 0
            (Logger_ctor True fd err [] (Some fp) None)))) = 2\<close>
  by (simp add: log_def Let_def Logger_ctor_def writeToFS_def fs_line_def log_entry_def
      show_u64_0 show_u64_1)

subsection \<open>C6: a send that fails during a broadcast\<close>




subsection \<open>C7: the first message of a fresh logger\<close>




subsection \<open>C8: decoding the payload\<close>

text \<open>
  C8 at its failing input. For the message made of a quote, a backslash and a line
  feed, \<^verbatim>\<open>writeToWS\<close> of lib/logger.cpp sends these three bytes as they are between the
  quotes of the \<^verbatim>\<open>message\<close> field: the string ends at the first of them, and what
  follows is not JSON.
\<close>

theorem publisher_raw_message:
  \<open>payload Lib
     \<lparr> type = INFO, sev = MID, timestamp = 7, activity_uuid = 12345, seq_id = 1,
       parent_uuid = 0, offset = 0, length_e = 3 \<rparr> [CHR 0x22, CHR 0x5C, CHR 0x0A]
   = ''{"timestamp":7,"type":"INFO","severity":"MID","activity_uuid":12345,"seq_id":1,"parent_uuid":0,"message":"''
     @ [CHR 0x22, CHR 0x5C, CHR 0x0A] @ ''"}''\<close>
  by (simp add: show_u64_0 show_u64_1 show_u64_7 show_u64_12345)

subsection \<open>C9: the two publishers\<close>

text \<open>
  C9, as far as it holds. For every entry and every message without a quote, a
  backslash, a backspace, a form feed, a line feed, a carriage return or a tab, the
  two payloads are made of the same three pieces \<open>a\<close>, \<open>b\<close>, \<open>c\<close> around the two
  identifiers; lib/logger.cpp writes the identifiers as numbers, unnamed/part_001 writes
  them between quotes.
\<close>

theorem payloads_agree_up_to_uuid_quotes:
  assumes \<open>set message \<inter> {CHR 0x22, CHR 0x5C, CHR 0x08, CHR 0x0C, CHR 0x0A, CHR 0x0D, CHR 0x09} = {}\<close>
  shows \<open>let a = ''{"timestamp":'' @ show_u64 (timestamp entry)
                  @ '',"type":"'' @ to_string_type (type entry)
                  @ ''","severity":"'' @ to_string_sev (sev entry)
                  @ ''","activity_uuid":'';
              b = '',"seq_id":'' @ show_u64 (seq_id entry) @ '',"parent_uuid":'';
              c = '',"message":"'' @ message @ ''"}''
          in payload Lib entry message
               = a @ show_u64 (activity_uuid entry) @ b @ show_u64 (parent_uuid entry) @ c
           \<and> payload Part001 entry message
               = a @ ''"'' @ show_u64 (activity_uuid entry) @ ''"'' @ b
                 @ ''"'' @ show_u64 (parent_uuid entry) @ ''"'' @ c\<close>
  using escape_json_plain [OF assms] by (simp add: Let_def)

text \<open>
  The entry of the scenario of C7 with the message \<^verbatim>\<open>hi\<close>.
\<close>

theorem payloads_agree_up_to_uuid_quotes_witness:
  \<open>payload Lib
     \<lparr> type = INFO, sev = MID, timestamp = 7, activity_uuid = 12345, seq_id = 1,
       parent_uuid = 0, offset = 0, length_e = 2 \<rparr> ''hi''
   = ''{"timestamp":7,"type":"INFO","severity":"MID","activity_uuid":''
     @ ''12345'' @ '',"seq_id":1,"parent_uuid":'' @ ''0'' @ '',"message":"hi"}''
   \<and> payload Part001
     \<lparr> type = INFO, sev = MID, timestamp = 7, activity_uuid = 12345, seq_id = 1,
       parent_uuid = 0, offset = 0, length_e = 2 \<rparr> ''hi''
   = ''{"timestamp":7,"type":"INFO","severity":"MID","activity_uuid":''
     @ ''"'' @ ''12345'' @ ''"'' @ '',"seq_id":1,"parent_uuid":''
     @ ''"'' @ ''0'' @ ''"'' @ '',"message":"hi"}''\<close>
proof -
  have h: \<open>set ''hi'' \<inter> {CHR 0x22, CHR 0x5C, CHR 0x08, CHR 0x0C, CHR 0x0A, CHR 0x0D, CHR 0x09} = {}\<close>
    by simp
  show ?thesis
    using payloads_agree_up_to_uuid_quotes [OF h,
        of "\<lparr> type = INFO, sev = MID, timestamp = 7, activity_uuid = 12345, seq_id = 1,
              parent_uuid = 0, offset = 0, length_e = 2 \<rparr>"]
    by (simp add: Let_def show_u64_0 show_u64_1 show_u64_7 show_u64_12345 del: payload.simps)
qed

text \<open>
  C9 as stated fails: for the same entry and the message \<^verbatim>\<open>hi\<close> the two files build
  different payloads.
\<close>

theorem payloads_differ_counterexample:
  \<open>payload Lib
     \<lparr> type = INFO, sev = MID, timestamp = 7, activity_uuid = 12345, seq_id = 1,
       parent_uuid = 0, offset = 0, length_e = 2 \<rparr> ''hi''
   = ''{"timestamp":7,"type":"INFO","severity":"MID","activity_uuid":12345,"seq_id":1,"parent_uuid":0,"message":"hi"}''
   \<and> payload Part001
     \<lparr> type = INFO, sev = MID, timestamp = 7, activity_uuid = 12345, seq_id = 1,
       parent_uuid = 0, offset = 0, length_e = 2 \<rparr> ''hi''
   = ''{"timestamp":7,"type":"INFO","severity":"MID","activity_uuid":"12345","seq_id":1,"parent_uuid":"0","message":"hi"}''
   \<and> payload Lib
     \<lparr> type = INFO, sev = MID, timestamp = 7, activity_uuid = 12345, seq_id = 1,
       parent_uuid = 0, offset = 0, length_e = 2 \<rparr> ''hi''
   \<noteq> payload Part001
     \<lparr> type = INFO, sev = MID, timestamp = 7, activity_uuid = 12345, seq_id = 1,
       parent_uuid = 0, offset = 0, length_e = 2 \<rparr> ''hi''\<close>
  by (simp add: escape_json_concat escape_json_char_def show_u64_0 show_u64_1 show_u64_7
      show_u64_12345)

subsection \<open>C10: offset and length of the entry\<close>

text \<open>
  C10. In every sequence of calls, from any state of the logger (whatever the file
  holds already), each entry has the offset \<open>0\<close>, and its length is the size of the
  message of its call, as a \<^verbatim>\<open>size_t\<close>.
\<close>

theorem entries_offset_length:
  "map offset (entries i cs L) = replicate (length cs) 0
   \<and> map length_e (entries i cs L) = map (\<lambda>c. word_of_nat (length (c_message c))) cs"
  by (induction cs arbitrary: L) (simp_all add: entry_of_call_def log_entry_def)

end
